theory Spec2Isabelle
  imports Main "HOL-Library.Char_ord" "HOL-Library.List_Lexorder" "HOL-Library.Product_Lexorder"
    "HOL-Library.Sublist"
begin

section \<open>JavaScript strings\<close>

text \<open>
  Source strings are modelled as \<^typ>\<open>string\<close>, one \<^typ>\<open>char\<close> per code unit. The
  model of the built-in string operations is exact on ASCII text, which is what playlist
  attributes, country codes and the annotations of a title are made of: white space is
  the ASCII white space of \<open>String.prototype.trim\<close> (TAB, LF, VT, FF, CR, SP), a line
  terminator is LF or CR, a digit is \<open>0\<close>..\<open>9\<close>, and the case conversions map the 26 ASCII
  letters and leave every other character as it is.
  A number is modelled by a natural number. The source's numbers are doubles: the value
  that \<open>parseInt\<close> reads from a run of decimal digits is the number the digits denote
  as long as that number is a safe integer (below \<open>2^53\<close>), and a rounded value
  beyond. The model is exact on safe integers, and every statement below that compares
  or selects numbers read from a text is made for safe integers only.
\<close>

definition is_space :: "char \<Rightarrow> bool" where
  "is_space c = (c \<in> set [CHR 0x09, CHR 0x0A, CHR 0x0B, CHR 0x0C, CHR 0x0D, CHR '' ''])"

definition is_line_terminator :: "char \<Rightarrow> bool" where
  "is_line_terminator c = (c = CHR 0x0A \<or> c = CHR 0x0D)"

definition is_digit :: "char \<Rightarrow> bool" where
  "is_digit c = (c \<in> set ''0123456789'')"

definition lower_letters :: string where
  "lower_letters = ''abcdefghijklmnopqrstuvwxyz''"

definition upper_letters :: string where
  "upper_letters = ''ABCDEFGHIJKLMNOPQRSTUVWXYZ''"

definition is_lower :: "char \<Rightarrow> bool" where
  "is_lower c = (c \<in> set lower_letters)"

definition upper_char :: "char \<Rightarrow> char" where
  "upper_char c = (case map_of (zip lower_letters upper_letters) c of Some u \<Rightarrow> u | None \<Rightarrow> c)"

definition lower_char :: "char \<Rightarrow> char" where
  "lower_char c = (case map_of (zip upper_letters lower_letters) c of Some l \<Rightarrow> l | None \<Rightarrow> c)"

text \<open>\<open>String.prototype.toUpperCase\<close> and \<open>toLowerCase\<close>.\<close>

definition toUpperCase :: "string \<Rightarrow> string" where
  "toUpperCase s = map upper_char s"

definition toLowerCase :: "string \<Rightarrow> string" where
  "toLowerCase s = map lower_char s"

text \<open>\<open>String.prototype.trim\<close>.\<close>

definition trim :: "string \<Rightarrow> string" where
  "trim s = rev (dropWhile is_space (rev (dropWhile is_space s)))"

text \<open>
  \<open>s.split(sep)\<close> for a one-character separator: the empty string splits into one empty
  token, and two adjacent separators enclose an empty token.
\<close>

fun split :: "char \<Rightarrow> string \<Rightarrow> string list" where
  "split sep [] = [[]]"
| "split sep (c # cs) =
     (if c = sep then [] # split sep cs
      else (case split sep cs of [] \<Rightarrow> [[c]] | t # ts \<Rightarrow> (c # t) # ts))"

text \<open>\<open>arr.join(sep)\<close> on an array of strings.\<close>

fun join :: "string \<Rightarrow> string list \<Rightarrow> string" where
  "join sep [] = []"
| "join sep [x] = x"
| "join sep (x # y # ys) = x @ sep @ join sep (y # ys)"

text \<open>
  \<open>parseInt\<close> on a run of decimal digits: the number that the digits denote, which is
  what the source reads when that number is a safe integer. The decimal rendering of a
  number in a template literal is that of a safe integer as well.
\<close>

definition safe_integer :: "nat \<Rightarrow> bool" where
  "safe_integer n = (n < 2 ^ 53)"

definition digit_val :: "char \<Rightarrow> nat" where
  "digit_val c = (case map_of (zip ''0123456789'' [0, 1, 2, 3, 4, 5, 6, 7, 8, 9]) c of
                    Some d \<Rightarrow> d | None \<Rightarrow> 0)"

definition parseInt :: "string \<Rightarrow> nat" where
  "parseInt ds = foldl (\<lambda>a c. 10 * a + digit_val c) 0 ds"

fun number_toString :: "nat \<Rightarrow> string" where
  "number_toString n =
     (if n < 10 then [''0123456789'' ! n]
      else number_toString (n div 10) @ [''0123456789'' ! (n mod 10)])"

definition strip_prefix :: "string \<Rightarrow> string \<Rightarrow> string option" where
  "strip_prefix p s = (if take (length p) s = p then Some (drop (length p) s) else None)"

section \<open>Title parser (\<open>Channel.parseTitle\<close>)\<close>

record resolution =
  width :: "nat option"
  height :: "nat option"

record title =
  channelName :: string
  streamStatus :: "string option"
  streamResolution :: resolution

text \<open>
  The regular expression \<open>/\[(.*)\]/i\<close> anchored at the head of the string: after the
  opening bracket the greedy \<open>.*\<close> takes the rest of the line (\<open>.\<close> matches everything
  but a line terminator) and gives characters back until a closing bracket follows, so
  the group captures the line up to its last closing bracket.
\<close>

definition match_status_at :: "string \<Rightarrow> string option" where
  "match_status_at s =
     (case s of
        [] \<Rightarrow> None
      | c # r \<Rightarrow>
          if c = CHR ''[''
          then (let line = takeWhile (\<lambda>c. \<not> is_line_terminator c) r
                in if CHR '']'' \<in> set line
                   then Some (rev (tl (dropWhile (\<lambda>c. c \<noteq> CHR '']'') (rev line))))
                   else None)
          else None)"


text \<open>\<open>title.match(/\[(.*)\]/i)\<close>: the leftmost position where the expression matches;
  the result is capture group 1.\<close>

fun match_status :: "string \<Rightarrow> string option" where
  "match_status [] = None"
| "match_status (c # cs) =
     (case match_status_at (c # cs) of
        Some s \<Rightarrow> Some s
      | None \<Rightarrow> match_status cs)"

text \<open>
  The regular expression \<open>/\((\d+)P\)/i\<close> anchored at the head of the string. The greedy
  \<open>\d+\<close> takes the whole run of digits; giving digits back cannot help, since the next
  character would be a digit and not \<open>P\<close>.
\<close>

definition match_resolution_at :: "string \<Rightarrow> string option" where
  "match_resolution_at s =
     (case s of
        [] \<Rightarrow> None
      | c # r \<Rightarrow>
          if c = CHR ''(''
          then (let ds = takeWhile is_digit r
                in case dropWhile is_digit r of
                     p # q # _ \<Rightarrow>
                       if ds \<noteq> [] \<and> (p = CHR ''P'' \<or> p = CHR ''p'') \<and> q = CHR '')''
                       then Some ds else None
                   | _ \<Rightarrow> None)
          else None)"

fun match_resolution :: "string \<Rightarrow> string option" where
  "match_resolution [] = None"
| "match_resolution (c # cs) =
     (case match_resolution_at (c # cs) of
        Some ds \<Rightarrow> Some ds
      | None \<Rightarrow> match_resolution cs)"

text \<open>The filter of \<open>parseTitle\<close>: \<open>!/\[|\]/i.test(s) && !/\((\d+)P\)/i.test(s)\<close>.\<close>

definition has_bracket :: "string \<Rightarrow> bool" where
  "has_bracket s = (CHR ''['' \<in> set s \<or> CHR '']'' \<in> set s)"

definition keep_token :: "string \<Rightarrow> bool" where
  "keep_token s = (\<not> has_bracket s \<and> match_resolution s = None)"

definition parseTitle :: "string \<Rightarrow> title" where
  "parseTitle t =
     (let channelName = join '' '' (filter keep_token (map trim (split CHR '' '' (trim t))));
          streamStatus = match_status t;
          streamResolutionHeight = map_option parseInt (match_resolution t)
      in \<lparr>channelName = channelName,
          streamStatus = streamStatus,
          streamResolution = \<lparr>width = None, height = streamResolutionHeight\<rparr>\<rparr>)"

section \<open>Channel normalizer (\<open>Channel\<close> in \<open>scripts/parser.js\<close>)\<close>

text \<open>
  A raw playlist entry as the playlist parser library delivers it: every attribute is a
  string, empty when the playlist line does not declare it.
\<close>

record tvg =
  id :: string
  name :: string
  country :: string
  language :: string
  logo :: string
  url :: string

record http =
  referrer :: string
  user_agent :: string

record group =
  title :: string

record item =
  name :: string
  tvg :: tvg
  group :: group
  http :: http
  url :: string

record header =
  attrs :: "(string \<times> string) list"

text \<open>
  A country entry \<open>{ code, name }\<close>; \<open>name\<close> holds what \<open>utils.code2name\<close> returned.
\<close>

record country =
  code :: string
  name :: "string option"

record language =
  code :: string
  name :: string

record category =
  id :: string
  name :: string

record channel =
  tvg :: tvg
  http :: http
  url :: string
  logo :: string
  name :: string
  status :: "string option"
  resolution :: resolution
  countries :: "country list"
  languages :: "language list"
  category :: string

text \<open>
  The module \<open>./utils\<close> is not part of the sources at hand: the functions that the
  normalizer and the pipeline call from it are parameters of the model. A lookup that
  finds nothing returns \<open>None\<close> (the source's \<open>undefined\<close> or \<open>null\<close>).
\<close>

record utils =
  region2codes :: "string \<Rightarrow> string list"
  code2name :: "string \<Rightarrow> string option"
  language2code :: "string \<Rightarrow> string option"
  getBasename :: "string \<Rightarrow> string"
  parseLanguages :: "string \<Rightarrow> language list"

text \<open>Truthiness of a value that is a string, \<open>undefined\<close> or \<open>null\<close>.\<close>

definition truthy :: "string option \<Rightarrow> bool" where
  "truthy v = (case v of None \<Rightarrow> False | Some s \<Rightarrow> s \<noteq> [])"

text \<open>The inner loop of \<open>parseCountries\<close>: \<open>if (!acc.includes(code)) acc.push(code)\<close>.\<close>

definition push_codes :: "string list \<Rightarrow> string list \<Rightarrow> string list" where
  "push_codes acc codes =
     foldl (\<lambda>acc code. if code \<notin> set acc then acc @ [code] else acc) acc codes"

text \<open>The reducer of \<open>parseCountries\<close>: a token that expands pushes its codes through
  the inclusion test, any other token is pushed as it is.\<close>

definition reduce_codes :: "utils \<Rightarrow> string list \<Rightarrow> string \<Rightarrow> string list" where
  "reduce_codes U acc token =
     (let codes = region2codes U token
      in if codes \<noteq> [] then push_codes acc codes else acc @ [token])"

definition parseCountries :: "utils \<Rightarrow> string \<Rightarrow> country list" where
  "parseCountries U string =
     (let arr = filter (\<lambda>code. code \<noteq> [] \<and> truthy (code2name U code))
                  (foldl (reduce_codes U) [] (split CHR '';'' string))
      in map (\<lambda>code. \<lparr>country.code = toLowerCase code, name = code2name U code\<rparr>) arr)"

definition parseLanguages :: "utils \<Rightarrow> string \<Rightarrow> language list" where
  "parseLanguages U string =
     List.map_filter
       (\<lambda>name. let code = (if name \<noteq> [] then language2code U name else None)
               in case code of
                    None \<Rightarrow> None
                  | Some c \<Rightarrow> if c = [] then None else Some \<lparr>language.code = c, name = name\<rparr>)
       (split CHR '';'' string)"

definition parseCategory :: "category list \<Rightarrow> string \<Rightarrow> string" where
  "parseCategory categories string =
     (case find (\<lambda>c. category.id c = toLowerCase string) categories of
        Some found \<Rightarrow> category.name found
      | None \<Rightarrow> [])"

definition parseData :: "utils \<Rightarrow> category list \<Rightarrow> item \<Rightarrow> channel" where
  "parseData U categories data =
     (let title = parseTitle (item.name data)
      in \<lparr>channel.tvg = item.tvg data,
          http = item.http data,
          url = item.url data,
          logo = tvg.logo (item.tvg data),
          name = channelName title,
          status = streamStatus title,
          resolution = streamResolution title,
          countries = parseCountries U (tvg.country (item.tvg data)),
          languages = parseLanguages U (tvg.language (item.tvg data)),
          category = parseCategory categories (group.title (item.group data))\<rparr>)"

text \<open>\<open>header.attrs[key] || ''\<close>.\<close>

definition header_attr :: "header \<Rightarrow> string \<Rightarrow> string" where
  "header_attr h key = (case map_of (attrs h) key of Some v \<Rightarrow> v | None \<Rightarrow> [])"

text \<open>The constructor of \<open>Channel\<close>, with the fallback to the country of the source file.\<close>

definition Channel_constructor ::
  "utils \<Rightarrow> category list \<Rightarrow> item \<Rightarrow> header \<Rightarrow> string \<Rightarrow> channel" where
  "Channel_constructor U categories data h sourceUrl =
     (let this = parseData U categories data;
          this =
            (if channel.countries this = []
             then (let filename = getBasename U sourceUrl;
                       countryName = code2name U filename;
                       cs = (if truthy countryName
                             then [\<lparr>country.code = toLowerCase filename, name = countryName\<rparr>]
                             else [])
                   in this\<lparr>channel.countries := cs,
                           channel.tvg := (channel.tvg this)
                             \<lparr>tvg.country :=
                                join '';'' (map (\<lambda>c. toUpperCase (country.code c)) cs)\<rparr>\<rparr>)
             else this)
      in this\<lparr>channel.tvg := (channel.tvg this)\<lparr>tvg.url := header_attr h ''x-tvg-url''\<rparr>\<rparr>)"

section \<open>Playlist model and serializer (\<open>Playlist\<close> in \<open>scripts/parser.js\<close>)\<close>

record playlist =
  url :: string
  header :: header
  channels :: "channel list"

definition Playlist_constructor ::
  "utils \<Rightarrow> category list \<Rightarrow> header \<Rightarrow> item list \<Rightarrow> string \<Rightarrow> playlist" where
  "Playlist_constructor U categories h items u =
     \<lparr>playlist.url = u,
      header = h,
      channels = filter (\<lambda>channel. channel.url channel \<noteq> [])
                   (map (\<lambda>item. Channel_constructor U categories item h u) items)\<rparr>"

definition dq :: string where
  "dq = [CHR 0x22]"

definition nl :: string where
  "nl = [CHR 0x0A]"

text \<open>The getter \<open>tvgUrl\<close>.\<close>

definition tvgUrl :: "channel \<Rightarrow> string" where
  "tvgUrl this =
     (if (tvg.id (channel.tvg this) \<noteq> [] \<or> tvg.name (channel.tvg this) \<noteq> [])
         \<and> tvg.url (channel.tvg this) \<noteq> []
      then tvg.url (channel.tvg this) else [])"

text \<open>
  \<open>Channel.toString(short)\<close> first assigns the upper-cased country attribute to the
  channel and then builds the text: the model returns the text and the channel as the
  call leaves it.
\<close>

definition Channel_toString :: "channel \<Rightarrow> bool \<Rightarrow> string \<times> channel" where
  "Channel_toString c short =
     (let this = c\<lparr>channel.tvg :=
                     (channel.tvg c)\<lparr>tvg.country := toUpperCase (tvg.country (channel.tvg c))\<rparr>\<rparr>;
          info = ''-1 tvg-id='' @ dq @ tvg.id (channel.tvg this) @ dq
               @ '' tvg-name='' @ dq @ tvg.name (channel.tvg this) @ dq
               @ '' tvg-country='' @ dq @ tvg.country (channel.tvg this) @ dq
               @ '' tvg-language='' @ dq @ tvg.language (channel.tvg this) @ dq
               @ '' tvg-logo='' @ dq @ channel.logo this @ dq;
          info = (if \<not> short then info @ '' tvg-url='' @ dq @ tvgUrl this @ dq else info);
          info = info @ '' group-title='' @ dq @ channel.category this @ dq @ '',''
               @ channel.name this;
          info = (case height (channel.resolution this) of
                    None \<Rightarrow> info
                  | Some h \<Rightarrow> if h \<noteq> 0 then info @ '' ('' @ number_toString h @ ''p)'' else info);
          info = (case channel.status this of
                    None \<Rightarrow> info
                  | Some s \<Rightarrow> if s \<noteq> [] then info @ '' ['' @ s @ '']'' else info);
          info = (if referrer (channel.http this) \<noteq> []
                  then info @ nl @ ''#EXTVLCOPT:http-referrer='' @ referrer (channel.http this)
                  else info);
          info = (if user_agent (channel.http this) \<noteq> []
                  then info @ nl @ ''#EXTVLCOPT:http-user-agent='' @ user_agent (channel.http this)
                  else info)
      in (''#EXTINF:'' @ info @ nl @ channel.url this @ nl, this))"

text \<open>The assignment with which \<open>Channel.toString\<close> begins, as a function on channels.\<close>

definition uppercase_country :: "channel \<Rightarrow> channel" where
  "uppercase_country c =
     c\<lparr>channel.tvg := (channel.tvg c)\<lparr>tvg.country := toUpperCase (tvg.country (channel.tvg c))\<rparr>\<rparr>"

text \<open>The loop \<open>for (let channel of this.channels) output += channel.toString(short)\<close>,
  with the channels as the calls leave them.\<close>

fun toString_loop :: "bool \<Rightarrow> channel list \<Rightarrow> string \<Rightarrow> channel list \<Rightarrow> string \<times> channel list" where
  "toString_loop short [] output visited = (output, visited)"
| "toString_loop short (c # cs) output visited =
     (case Channel_toString c short of
        (s, c') \<Rightarrow> toString_loop short cs (output @ s) (visited @ [c']))"

definition Playlist_toString :: "playlist \<Rightarrow> bool \<Rightarrow> string \<times> playlist" where
  "Playlist_toString this short =
     (let parts = ''#EXTM3U'' #
                  map (\<lambda>(key, v). key @ ''='' @ dq @ v @ dq)
                    (filter (\<lambda>(key, v). v \<noteq> []) (attrs (playlist.header this)));
          output = join '' '' parts @ nl
      in case toString_loop short (playlist.channels this) output [] of
           (output, cs) \<Rightarrow> (output, this\<lparr>playlist.channels := cs\<rparr>))"

section \<open>Pipeline stages (the script that runs \<open>main\<close>)\<close>

record config =
  epg :: bool
  resolution :: bool

subsection \<open>Sorter\<close>

text \<open>
  Modelled from the spec: \<open>utils.sortBy\<close>, of the module \<open>./utils\<close> that is not among the
  sources. The specification of the Sorter reads: a stable sort by the tuple
  \<open>(name, url)\<close>, both compared as plain lexicographic strings (case-sensitive,
  locale-independent).
\<close>

definition sortBy_name_url :: "channel list \<Rightarrow> channel list" where
  "sortBy_name_url cs = sort_key (\<lambda>c. (channel.name c, channel.url c)) cs"

definition sortChannels :: "playlist \<Rightarrow> playlist" where
  "sortChannels p = p\<lparr>playlist.channels := sortBy_name_url (playlist.channels p)\<rparr>"

subsection \<open>Deduplicator\<close>

text \<open>
  The buffer of \<open>removeDuplicates\<close> is the object literal \<open>{}\<close>. Reading \<open>buffer[key]\<close>
  finds the object's own properties, which the loop stores, and the properties that
  every object literal inherits from \<open>Object.prototype\<close>.
\<close>

definition object_prototype_keys :: "string list" where
  "object_prototype_keys =
     [''constructor'', ''__defineGetter__'', ''__defineSetter__'', ''hasOwnProperty'',
      ''__lookupGetter__'', ''__lookupSetter__'', ''isPrototypeOf'',
      ''propertyIsEnumerable'', ''toString'', ''valueOf'', ''__proto__'',
      ''toLocaleString'']"

text \<open>\<open>typeof buffer[key] !== 'undefined'\<close>.\<close>

definition buffer_defined :: "(string \<rightharpoonup> bool) \<Rightarrow> string \<Rightarrow> bool" where
  "buffer_defined buffer key = (buffer key \<noteq> None \<or> key \<in> set object_prototype_keys)"

text \<open>The filter callback of \<open>removeDuplicates\<close>, run over the channels with the buffer
  as state. The assignment \<open>buffer[i.url] = true\<close> is reached only for a key that is
  neither stored nor inherited, where it creates an own property.\<close>

fun removeDuplicates_filter :: "(string \<rightharpoonup> bool) \<Rightarrow> channel list \<Rightarrow> channel list" where
  "removeDuplicates_filter buffer [] = []"
| "removeDuplicates_filter buffer (i # rest) =
     (let result = \<not> buffer_defined buffer (channel.url i)
      in if result
         then i # removeDuplicates_filter (buffer(channel.url i \<mapsto> True)) rest
         else removeDuplicates_filter buffer rest)"

definition removeDuplicates :: "playlist \<Rightarrow> playlist" where
  "removeDuplicates p =
     p\<lparr>playlist.channels := removeDuplicates_filter Map.empty (playlist.channels p)\<rparr>"

subsection \<open>Resolution prober\<close>

text \<open>
  The regular expression \<open>/RESOLUTION=(\d+)x(\d+)/gm\<close> anchored at the head of the
  string: the two captured digit runs and the text after the match. Both \<open>\d+\<close> are
  greedy and take their whole run of digits.
\<close>

definition match_variant_at :: "string \<Rightarrow> (string \<times> string \<times> string) option" where
  "match_variant_at s =
     (case strip_prefix ''RESOLUTION='' s of
        None \<Rightarrow> None
      | Some r \<Rightarrow>
          (let w = takeWhile is_digit r
           in case dropWhile is_digit r of
                [] \<Rightarrow> None
              | x # r' \<Rightarrow>
                  (let h = takeWhile is_digit r'
                   in if w \<noteq> [] \<and> x = CHR ''x'' \<and> h \<noteq> []
                      then Some (w, h, dropWhile is_digit r') else None)))"

text \<open>\<open>string.matchAll(regex)\<close>: the matches from left to right, each search starting
  where the previous match ended.\<close>

function matchAll_variants :: "string \<Rightarrow> (string \<times> string) list" where
  "matchAll_variants [] = []"
| "matchAll_variants (c # cs) =
     (case match_variant_at (c # cs) of
        None \<Rightarrow> matchAll_variants cs
      | Some (w, h, rest) \<Rightarrow> (w, h) # matchAll_variants rest)"
  by pat_completeness auto
termination
proof (relation "measure length")
  fix c :: char and cs x2 w y h rest
  assume m: "match_variant_at (c # cs) = Some x2" and x2: "(w, y) = x2" and y: "(h, rest) = y"
  from m x2 y obtain r x r' where
    r: "strip_prefix ''RESOLUTION='' (c # cs) = Some r" and
    d: "dropWhile is_digit r = x # r'" and
    rest: "rest = dropWhile is_digit r'"
    by (auto simp: match_variant_at_def Let_def split: option.splits list.splits if_splits)
  from r have "length r < length (c # cs)"
    by (auto simp: strip_prefix_def split: if_splits)
  moreover have "length (x # r') \<le> length r"
    using length_dropWhile_le [of is_digit r] d by simp
  moreover have "length rest \<le> length r'"
    using rest length_dropWhile_le [of is_digit r'] by simp
  ultimately show "(rest, c # cs) \<in> measure length" by simp
qed simp_all

text \<open>The value of a field that holds a number or \<open>null\<close>, as a comparison reads it.\<close>

definition to_number :: "nat option \<Rightarrow> nat" where
  "to_number v = (case v of None \<Rightarrow> 0 | Some n \<Rightarrow> n)"

text \<open>
  \<open>parseResolution\<close>: \<open>variants\<close> is its array \<open>arr\<close> of the matches, read as numbers.
  \<open>arr.reduce(f)\<close> without an initial value, on a non-empty array, is a left fold from
  the first element; the result is \<open>undefined\<close> (\<open>None\<close>) when nothing matches.
\<close>

definition variants :: "string \<Rightarrow> resolution list" where
  "variants string =
     map (\<lambda>(w, h). \<lparr>width = Some (parseInt w), height = Some (parseInt h)\<rparr>)
       (matchAll_variants string)"

text \<open>The callback of \<open>reduce\<close>: \<open>prev.height > current.height ? prev : current\<close>.\<close>

definition pick :: "resolution \<Rightarrow> resolution \<Rightarrow> resolution" where
  "pick prev current =
     (if to_number (height prev) > to_number (height current) then prev else current)"

definition parseResolution :: "string \<Rightarrow> resolution option" where
  "parseResolution string =
     (let arr = variants string
      in case arr of
           [] \<Rightarrow> None
         | first # others \<Rightarrow> Some (foldl pick first others))"

record response =
  status :: nat
  data :: string

text \<open>The body of the loop of \<open>detectResolution\<close> for one channel; \<open>None\<close> is a request
  that failed.\<close>

definition detect_channel :: "response option \<Rightarrow> channel \<Rightarrow> channel" where
  "detect_channel resp c =
     (case resp of
        None \<Rightarrow> c
      | Some r \<Rightarrow>
          if response.status r = 200
          then (if strip_prefix ''#EXTM3U'' (data r) \<noteq> None
                then (case parseResolution (data r) of
                        Some res \<Rightarrow> c\<lparr>channel.resolution := res\<rparr>
                      | None \<Rightarrow> c)
                else c)
          else c)"

definition detectResolution ::
  "config \<Rightarrow> (string \<Rightarrow> response option) \<Rightarrow> playlist \<Rightarrow> playlist" where
  "detectResolution cfg get p =
     (if \<not> config.resolution cfg then p
      else p\<lparr>playlist.channels :=
               map (\<lambda>c. detect_channel (get (channel.url c)) c) (playlist.channels p)\<rparr>)"

subsection \<open>EPG merger\<close>

record epg_name =
  "value" :: string
  lang :: "string option"

record epg_item =
  name :: "epg_name list"
  icon :: "string list"

text \<open>What the promise of \<open>utils.parseEPG\<close> settles to: a rejection, or a guide (which may
  be \<open>null\<close>) whose \<open>channels\<close> are looked up by identifier.\<close>

datatype epg_load = Rejected | Resolved "(string \<rightharpoonup> epg_item) option"

text \<open>The callback that \<open>updateFromEPG\<close> runs on each channel (it assigns to the channel
  in place).\<close>

definition update_channel :: "utils \<Rightarrow> (string \<rightharpoonup> epg_item) \<Rightarrow> channel \<Rightarrow> channel" where
  "update_channel U guide c =
     (if tvg.id (channel.tvg c) = [] then c
      else case guide (tvg.id (channel.tvg c)) of
             None \<Rightarrow> c
           | Some epgItem \<Rightarrow>
               (let c = (case epg_item.name epgItem of
                           n # _ \<Rightarrow>
                             if tvg.name (channel.tvg c) = []
                             then c\<lparr>channel.tvg := (channel.tvg c)\<lparr>tvg.name := epg_name.value n\<rparr>\<rparr>
                             else c
                         | [] \<Rightarrow> c);
                    c = (case epg_item.name epgItem of
                           n # _ \<Rightarrow>
                             if channel.languages c = [] \<and> truthy (lang n)
                             then (case lang n of
                                     Some l \<Rightarrow> c\<lparr>channel.languages := utils.parseLanguages U l\<rparr>
                                   | None \<Rightarrow> c)
                             else c
                         | [] \<Rightarrow> c);
                    c = (case icon epgItem of
                           i # _ \<Rightarrow> if channel.logo c = [] then c\<lparr>channel.logo := i\<rparr> else c
                         | [] \<Rightarrow> c)
                in c))"

text \<open>\<open>updateFromEPG\<close>; the result \<open>None\<close> is the \<open>undefined\<close> that the \<open>catch\<close> handler
  returns when the guide could not be loaded.\<close>

definition updateFromEPG ::
  "config \<Rightarrow> utils \<Rightarrow> (string \<Rightarrow> epg_load) \<Rightarrow> playlist \<Rightarrow> playlist option" where
  "updateFromEPG cfg U parseEPG p =
     (if \<not> config.epg cfg then Some p
      else case map_of (attrs (playlist.header p)) ''x-tvg-url'' of
             None \<Rightarrow> Some p
           | Some guideUrl \<Rightarrow>
               if guideUrl = [] then Some p
               else (case parseEPG guideUrl of
                       Rejected \<Rightarrow> None
                     | Resolved None \<Rightarrow> Some p
                     | Resolved (Some guide) \<Rightarrow>
                         Some (p\<lparr>playlist.channels :=
                                  map (update_channel U guide) (playlist.channels p)\<rparr>)))"

section \<open>Example inputs\<close>

text \<open>Tables and entries on which the theorems below are instantiated.\<close>

definition example_utils :: utils where
  "example_utils =
     \<lparr>region2codes = (\<lambda>r. if r = ''NORD'' then [''DK'', ''SE''] else []),
      code2name = map_of [(''UK'', ''United Kingdom''), (''US'', ''United States''),
                          (''DK'', ''Denmark''), (''SE'', ''Sweden''),
                          (''uk'', ''United Kingdom'')],
      language2code = map_of [(''English'', ''eng'')],
      getBasename = (\<lambda>u. if u = ''channels/uk.m3u'' then ''uk'' else []),
      parseLanguages =
        (\<lambda>l. if l = ''en'' then [\<lparr>language.code = ''eng'', name = ''English''\<rparr>] else [])\<rparr>"

definition example_header :: header where
  "example_header = \<lparr>attrs = [(''x-tvg-url'', ''http://guide.example/epg.xml'')]\<rparr>"

definition example_item :: item where
  "example_item =
     \<lparr>item.name = ''BBC One [HD] (1080P)'',
      tvg = \<lparr>tvg.id = ''BBCOne.uk'', name = [], country = ''uk'', language = ''English'',
             logo = ''http://logo.example/bbc.png'', url = []\<rparr>,
      group = \<lparr>title = ''News''\<rparr>,
      http = \<lparr>referrer = [], user_agent = []\<rparr>,
      url = ''http://stream.example/bbc1.m3u8''\<rparr>"

definition example_item_no_url :: item where
  "example_item_no_url = example_item\<lparr>item.url := []\<rparr>"

definition example_channel :: channel where
  "example_channel =
     Channel_constructor example_utils [] example_item example_header ''channels/uk.m3u''"

definition example_item_unknown_country :: item where
  "example_item_unknown_country =
     example_item\<lparr>item.tvg := (item.tvg example_item)\<lparr>tvg.country := ''zz''\<rparr>\<rparr>"

definition example_guide_item :: epg_item where
  "example_guide_item =
     \<lparr>epg_item.name = [\<lparr>value = ''BBC One London'', lang = Some ''en''\<rparr>],
      icon = [''http://guide.example/bbc.png'']\<rparr>"

definition example_guide :: "string \<rightharpoonup> epg_item" where
  "example_guide = [''BBCOne.uk'' \<mapsto> example_guide_item]"

definition example_channel_named :: channel where
  "example_channel_named =
     example_channel\<lparr>channel.tvg := (channel.tvg example_channel)\<lparr>tvg.name := ''BBC One''\<rparr>\<rparr>"

definition example_playlist :: playlist where
  "example_playlist =
     \<lparr>playlist.url = ''channels/uk.m3u'', header = example_header,
      channels = [example_channel_named]\<rparr>"

definition example_config :: config where
  "example_config = \<lparr>epg = True, resolution = True\<rparr>"

definition example_manifest :: string where
  "example_manifest =
     ''#EXTM3U'' @ nl
     @ ''#EXT-X-STREAM-INF:BANDWIDTH=1280000,RESOLUTION=1280x720'' @ nl @ ''low.m3u8'' @ nl
     @ ''#EXT-X-STREAM-INF:BANDWIDTH=2560000,RESOLUTION=1920x1080'' @ nl @ ''high.m3u8'' @ nl"

definition example_manifest_tie :: string where
  "example_manifest_tie =
     ''#EXTM3U'' @ nl
     @ ''#EXT-X-STREAM-INF:BANDWIDTH=1280000,RESOLUTION=1280x720'' @ nl @ ''wide.m3u8'' @ nl
     @ ''#EXT-X-STREAM-INF:BANDWIDTH=1000000,RESOLUTION=960x720'' @ nl @ ''narrow.m3u8'' @ nl"

definition example_channel_constructor :: channel where
  "example_channel_constructor = example_channel\<lparr>channel.url := ''constructor''\<rparr>"

definition example_channel_renamed :: channel where
  "example_channel_renamed = example_channel\<lparr>channel.name := ''BBC 1''\<rparr>"

definition example_playlist_dup :: playlist where
  "example_playlist_dup =
     \<lparr>playlist.url = ''channels/uk.m3u'', header = example_header,
      channels = [example_channel, example_channel_renamed]\<rparr>"

definition example_manifest_three :: string where
  "example_manifest_three =
     ''#EXTM3U'' @ nl
     @ ''#EXT-X-STREAM-INF:BANDWIDTH=800000,RESOLUTION=640x360'' @ nl @ ''low.m3u8'' @ nl
     @ ''#EXT-X-STREAM-INF:BANDWIDTH=1280000,RESOLUTION=1280x720'' @ nl @ ''mid.m3u8'' @ nl
     @ ''#EXT-X-STREAM-INF:BANDWIDTH=2560000,RESOLUTION=1920x1080'' @ nl @ ''high.m3u8'' @ nl"

text \<open>
  A playlist entry whose title has a bracket annotation of three words, and the entry
  that is read back from the text that the serializer writes for it: its title is the
  text written after the comma of the entry line, its declared country the upper-cased
  one, its group the written (empty) one.
\<close>

definition example_item_long_status :: item where
  "example_item_long_status = example_item\<lparr>item.name := ''BBC One [Not always 24/7]''\<rparr>"

definition example_item_reread :: item where
  "example_item_reread =
     example_item\<lparr>item.name := ''BBC One always [Not always 24/7]'',
                  item.tvg := (item.tvg example_item)\<lparr>tvg.country := ''UK''\<rparr>,
                  item.group := \<lparr>title = []\<rparr>\<rparr>"

definition example_playlist_first_run :: playlist where
  "example_playlist_first_run =
     Playlist_constructor example_utils [] example_header [example_item_long_status]
       ''channels/uk.m3u''"

definition example_playlist_second_run :: playlist where
  "example_playlist_second_run =
     Playlist_constructor example_utils [] example_header [example_item_reread]
       ''channels/uk.m3u''"

definition example_text_first_run :: string where
  "example_text_first_run =
     ''#EXTM3U x-tvg-url='' @ dq @ ''http://guide.example/epg.xml'' @ dq @ nl
     @ ''#EXTINF:-1 tvg-id='' @ dq @ ''BBCOne.uk'' @ dq @ '' tvg-name='' @ dq @ dq
     @ '' tvg-country='' @ dq @ ''UK'' @ dq @ '' tvg-language='' @ dq @ ''English'' @ dq
     @ '' tvg-logo='' @ dq @ ''http://logo.example/bbc.png'' @ dq
     @ '' group-title='' @ dq @ dq @ '',BBC One always [Not always 24/7]'' @ nl
     @ ''http://stream.example/bbc1.m3u8'' @ nl"

definition example_text_second_run :: string where
  "example_text_second_run =
     ''#EXTM3U x-tvg-url='' @ dq @ ''http://guide.example/epg.xml'' @ dq @ nl
     @ ''#EXTINF:-1 tvg-id='' @ dq @ ''BBCOne.uk'' @ dq @ '' tvg-name='' @ dq @ dq
     @ '' tvg-country='' @ dq @ ''UK'' @ dq @ '' tvg-language='' @ dq @ ''English'' @ dq
     @ '' tvg-logo='' @ dq @ ''http://logo.example/bbc.png'' @ dq
     @ '' group-title='' @ dq @ dq @ '',BBC One always always [Not always 24/7]'' @ nl
     @ ''http://stream.example/bbc1.m3u8'' @ nl"

section \<open>Evaluation of the examples\<close>

lemmas string_simps =
  trim_def is_space_def is_digit_def is_line_terminator_def parseInt_def digit_val_def
  toLowerCase_def toUpperCase_def lower_char_def upper_char_def upper_letters_def
  lower_letters_def

lemmas title_simps =
  parseTitle_def keep_token_def has_bracket_def match_resolution_at_def match_status_at_def

lemmas normalizer_simps =
  Channel_constructor_def parseData_def parseCountries_def reduce_codes_def push_codes_def
  truthy_def parseLanguages_def List.map_filter_def parseCategory_def header_attr_def

lemma example_channel_eq:
  "example_channel =
     \<lparr>channel.tvg =
        \<lparr>tvg.id = ''BBCOne.uk'', name = [], country = ''uk'', language = ''English'',
         logo = ''http://logo.example/bbc.png'', url = ''http://guide.example/epg.xml''\<rparr>,
      http = \<lparr>referrer = [], user_agent = []\<rparr>,
      url = ''http://stream.example/bbc1.m3u8'',
      logo = ''http://logo.example/bbc.png'',
      name = ''BBC One'',
      status = Some ''HD'',
      resolution = \<lparr>width = None, height = Some 1080\<rparr>,
      countries = [\<lparr>country.code = ''uk'', name = Some ''United Kingdom''\<rparr>],
      languages = [\<lparr>language.code = ''eng'', name = ''English''\<rparr>],
      category = []\<rparr>"
  by (simp add: example_channel_def example_item_def example_utils_def example_header_def
      string_simps title_simps normalizer_simps)

section \<open>Properties of the title parser\<close>




































section \<open>Properties of the country resolution\<close>

lemma parseCountries_example:
  "parseCountries example_utils ''UK;US'' =
       [\<lparr>country.code = ''uk'', name = Some ''United Kingdom''\<rparr>,
        \<lparr>country.code = ''us'', name = Some ''United States''\<rparr>]"
  by (simp add: example_utils_def string_simps normalizer_simps)

lemma push_codes_distinct: "distinct acc \<Longrightarrow> distinct (push_codes acc codes)"
  unfolding push_codes_def
  by (induction codes arbitrary: acc) auto

text \<open>
  Claim C2. The claim that the resolved code list never holds a duplicate fails on the
  code: only the codes of an expanded region pass through the inclusion test, a literal
  token is pushed unconditionally. With \<open>UK\<close> a valid code that is not a region, the
  declared country \<open>UK;UK\<close> resolves to the same country twice, and so does a region
  followed by one of its own codes.
\<close>

theorem parseCountries_duplicate_literal:
  "region2codes example_utils ''UK'' = []
   \<and> parseCountries example_utils ''UK;UK'' =
       [\<lparr>country.code = ''uk'', name = Some ''United Kingdom''\<rparr>,
        \<lparr>country.code = ''uk'', name = Some ''United Kingdom''\<rparr>]
   \<and> \<not> distinct (map country.code (parseCountries example_utils ''UK;UK''))
   \<and> region2codes example_utils ''NORD'' = [''DK'', ''SE'']
   \<and> parseCountries example_utils ''NORD;DK'' =
       [\<lparr>country.code = ''dk'', name = Some ''Denmark''\<rparr>,
        \<lparr>country.code = ''se'', name = Some ''Sweden''\<rparr>,
        \<lparr>country.code = ''dk'', name = Some ''Denmark''\<rparr>]"
  by (simp add: example_utils_def string_simps normalizer_simps)

section \<open>Properties of the country fallback\<close>

lemma countries_parseData:
  "channel.countries (parseData U categories raw) = parseCountries U (tvg.country (item.tvg raw))"
  by (simp add: parseData_def Let_def)

lemma parseCountries_nonempty_iff:
  "parseCountries U s \<noteq> [] \<longleftrightarrow>
     (\<exists>code \<in> set (foldl (reduce_codes U) [] (split CHR '';'' s)).
        code \<noteq> [] \<and> truthy (code2name U code))"
  by (auto simp: parseCountries_def Let_def filter_empty_conv)

text \<open>
  Claim C3. The countries of a normalized channel: when the declared country field
  resolves to at least one country, these are the channel's countries; when it resolves
  to none and the basename of the source playlist is a valid country code, the channel
  has exactly that one fallback country; when that code does not resolve either, the
  list is empty. So \<open>countries\<close> is non-empty whenever the declared field or the source
  file identity resolves.
\<close>

theorem countries_fallback:
  "(parseCountries U (tvg.country (item.tvg raw)) \<noteq> [] \<longrightarrow>
      channel.countries (Channel_constructor U categories raw h sourceUrl) =
        parseCountries U (tvg.country (item.tvg raw)))
   \<and> (parseCountries U (tvg.country (item.tvg raw)) = []
        \<and> truthy (code2name U (getBasename U sourceUrl)) \<longrightarrow>
      channel.countries (Channel_constructor U categories raw h sourceUrl) =
        [\<lparr>country.code = toLowerCase (getBasename U sourceUrl),
          name = code2name U (getBasename U sourceUrl)\<rparr>])
   \<and> (parseCountries U (tvg.country (item.tvg raw)) = []
        \<and> \<not> truthy (code2name U (getBasename U sourceUrl)) \<longrightarrow>
      channel.countries (Channel_constructor U categories raw h sourceUrl) = [])
   \<and> (parseCountries U (tvg.country (item.tvg raw)) \<noteq> []
        \<or> truthy (code2name U (getBasename U sourceUrl)) \<longrightarrow>
      channel.countries (Channel_constructor U categories raw h sourceUrl) \<noteq> [])"
  by (simp add: Channel_constructor_def countries_parseData Let_def)

theorem countries_fallback_witness:
  "parseCountries example_utils (tvg.country (item.tvg example_item)) \<noteq> []
   \<and> channel.countries
       (Channel_constructor example_utils [] example_item example_header ''channels/uk.m3u'')
      = [\<lparr>country.code = ''uk'', name = Some ''United Kingdom''\<rparr>]
   \<and> parseCountries example_utils (tvg.country (item.tvg example_item_unknown_country)) = []
   \<and> truthy (code2name example_utils (getBasename example_utils ''channels/uk.m3u''))
   \<and> channel.countries
       (Channel_constructor example_utils [] example_item_unknown_country example_header
          ''channels/uk.m3u'')
      = [\<lparr>country.code = ''uk'', name = Some ''United Kingdom''\<rparr>]
   \<and> \<not> truthy (code2name example_utils (getBasename example_utils ''channels/unsorted.m3u''))
   \<and> channel.countries
       (Channel_constructor example_utils [] example_item_unknown_country example_header
          ''channels/unsorted.m3u'') = []"
proof -
  have a: "parseCountries example_utils (tvg.country (item.tvg example_item)) =
             [\<lparr>country.code = ''uk'', name = Some ''United Kingdom''\<rparr>]"
    by (simp add: example_item_def example_utils_def string_simps normalizer_simps)
  have b: "parseCountries example_utils (tvg.country (item.tvg example_item_unknown_country)) = []"
    by (simp add: example_item_unknown_country_def example_item_def example_utils_def
        string_simps normalizer_simps)
  have c: "truthy (code2name example_utils (getBasename example_utils ''channels/uk.m3u''))"
    by (simp add: example_utils_def truthy_def)
  have d: "\<not> truthy (code2name example_utils (getBasename example_utils ''channels/unsorted.m3u''))"
    by (simp add: example_utils_def truthy_def)
  have e: "toLowerCase (getBasename example_utils ''channels/uk.m3u'') = ''uk''"
       "code2name example_utils (getBasename example_utils ''channels/uk.m3u'') = Some ''United Kingdom''"
    by (simp_all add: example_utils_def string_simps)
  show ?thesis
    using countries_fallback [of example_utils example_item "[]" example_header "''channels/uk.m3u''"]
      countries_fallback [of example_utils example_item_unknown_country "[]" example_header
        "''channels/uk.m3u''"]
      countries_fallback [of example_utils example_item_unknown_country "[]" example_header
        "''channels/unsorted.m3u''"]
      a b c d e
    by simp
qed

section \<open>Properties of the playlist construction\<close>

lemma url_Channel_constructor:
  "channel.url (Channel_constructor U categories raw h sourceUrl) = item.url raw"
  by (simp add: Channel_constructor_def parseData_def Let_def)

text \<open>
  Claim C4. The channels of a constructed playlist are the channels of the raw entries
  that have a stream URL, in their order: an entry without a URL yields no channel, and
  so no channel of a constructed playlist has an empty \<open>url\<close>.
\<close>

theorem playlist_channels_have_url:
  "playlist.channels (Playlist_constructor U categories h items u) =
     map (\<lambda>item. Channel_constructor U categories item h u)
       (filter (\<lambda>item. item.url item \<noteq> []) items)
   \<and> (\<forall>c \<in> set (playlist.channels (Playlist_constructor U categories h items u)).
         channel.url c \<noteq> [])"
  by (simp add: Playlist_constructor_def filter_map o_def url_Channel_constructor)

theorem playlist_channels_have_url_witness:
  "playlist.channels
     (Playlist_constructor example_utils [] example_header
        [example_item_no_url, example_item] ''channels/uk.m3u'') = [example_channel]
   \<and> channel.url example_channel \<noteq> []"
  using playlist_channels_have_url [of example_utils "[]" example_header
      "[example_item_no_url, example_item]" "''channels/uk.m3u''"]
  by (simp add: example_item_no_url_def example_channel_def example_item_def)

section \<open>Properties of the deduplication\<close>

lemma removeDuplicates_filter_subseq: "subseq (removeDuplicates_filter b cs) cs"
  by (induction cs arbitrary: b) (auto simp: Let_def)

lemma removeDuplicates_filter_subset: "set (removeDuplicates_filter b cs) \<subseteq> set cs"
  by (induction cs arbitrary: b) (auto simp: Let_def)

lemma removeDuplicates_filter_by_url:
  "filter (\<lambda>c. channel.url c = u) (removeDuplicates_filter b cs) =
     (if buffer_defined b u then [] else take 1 (filter (\<lambda>c. channel.url c = u) cs))"
  by (induction cs arbitrary: b) (auto simp: Let_def buffer_defined_def)

lemma removeDuplicates_filter_fresh:
  "distinct (map channel.url (removeDuplicates_filter b cs))
   \<and> (\<forall>x \<in> set (removeDuplicates_filter b cs). \<not> buffer_defined b (channel.url x))"
proof (induction cs arbitrary: b)
  case Nil
  then show ?case by simp
next
  case (Cons i rest)
  show ?case
  proof (cases "buffer_defined b (channel.url i)")
    case True
    then show ?thesis using Cons.IH [of b] by simp
  next
    case False
    let ?b = "b(channel.url i \<mapsto> True)"
    have ih: "distinct (map channel.url (removeDuplicates_filter ?b rest))"
      "\<forall>x \<in> set (removeDuplicates_filter ?b rest). \<not> buffer_defined ?b (channel.url x)"
      using Cons.IH [of ?b] by blast+
    from ih(2) have "\<forall>x \<in> set (removeDuplicates_filter ?b rest).
        channel.url x \<noteq> channel.url i \<and> \<not> buffer_defined b (channel.url x)"
      by (auto simp: buffer_defined_def split: if_splits)
    then show ?thesis using False ih(1) by (auto simp: Let_def)
  qed
qed

lemma removeDuplicates_filter_id:
  "distinct (map channel.url xs) \<Longrightarrow> \<forall>x \<in> set xs. \<not> buffer_defined b (channel.url x)
     \<Longrightarrow> removeDuplicates_filter b xs = xs"
proof (induction xs arbitrary: b)
  case Nil
  then show ?case by simp
next
  case (Cons i rest)
  let ?b = "b(channel.url i \<mapsto> True)"
  have "\<forall>x \<in> set rest. \<not> buffer_defined ?b (channel.url x)"
  proof
    fix x assume x: "x \<in> set rest"
    then have "channel.url x \<in> channel.url ` set rest" by (rule imageI)
    then have "channel.url x \<noteq> channel.url i"
      using Cons.prems(1) by auto
    moreover have "\<not> buffer_defined b (channel.url x)"
      using Cons.prems(2) x by simp
    ultimately show "\<not> buffer_defined ?b (channel.url x)"
      by (simp add: buffer_defined_def)
  qed
  have "removeDuplicates_filter ?b rest = rest"
  proof (rule Cons.IH)
    show "distinct (map channel.url rest)" using Cons.prems(1) by simp
    show "\<forall>x \<in> set rest. \<not> buffer_defined ?b (channel.url x)" by fact
  qed
  then show ?case using Cons.prems(2) by (simp add: Let_def)
qed

lemma removeDuplicates_idempotent:
  "removeDuplicates (removeDuplicates p) = removeDuplicates p"
  using removeDuplicates_filter_fresh [of Map.empty "playlist.channels p"]
  by (simp add: removeDuplicates_def removeDuplicates_filter_id)

lemma removeDuplicates_first_seen:
  assumes "u \<notin> set object_prototype_keys"
  shows "filter (\<lambda>c. channel.url c = u) (playlist.channels (removeDuplicates p)) =
           take 1 (filter (\<lambda>c. channel.url c = u) (playlist.channels p))"
  using assms by (simp add: removeDuplicates_def removeDuplicates_filter_by_url buffer_defined_def)

lemma removeDuplicates_inherited_key:
  assumes "u \<in> set object_prototype_keys"
  shows "filter (\<lambda>c. channel.url c = u) (playlist.channels (removeDuplicates p)) = []"
  using assms by (simp add: removeDuplicates_def removeDuplicates_filter_by_url buffer_defined_def)

text \<open>
  Claim C5. Deduplication is idempotent (\<open>removeDuplicates_idempotent\<close>), keeps the
  channels in their order (\<open>removeDuplicates_filter_subseq\<close>) and keeps exactly the
  first-seen channel of every url that is not the name of a property inherited by the
  buffer object (\<open>removeDuplicates_first_seen\<close>). For a url that is such a name the code
  departs from the claim: the lookup \<open>buffer[i.url]\<close> finds the inherited property, the
  channel counts as seen, and every channel with that url is dropped, the first one
  included.
\<close>

theorem removeDuplicates_drops_inherited_key:
  "channel.url example_channel_constructor = ''constructor''
   \<and> playlist.channels
       (removeDuplicates
          \<lparr>playlist.url = ''channels/uk.m3u'', header = example_header,
           channels = [example_channel_constructor]\<rparr>) = []"
  by (simp add: removeDuplicates_def example_channel_constructor_def buffer_defined_def
      object_prototype_keys_def)

section \<open>Sorting before deduplicating\<close>

lemma sort_dedupe_example:
  "playlist.channels (removeDuplicates (sortChannels example_playlist_dup)) =
     [example_channel_renamed]"
  by (simp add: removeDuplicates_def sortChannels_def sortBy_name_url_def example_playlist_dup_def
      example_channel_renamed_def example_channel_eq buffer_defined_def object_prototype_keys_def)

text \<open>
  Claim C6, as stated, fails on the code: the pipeline sorts before it deduplicates, so
  of two entries with the same url the one that survives is the first in sorted order.
  In the example playlist the first-encountered entry is dropped and the second one, whose
  name sorts first, survives.
\<close>

theorem sort_dedupe_keeps_second_encountered:
  "playlist.channels example_playlist_dup = [example_channel, example_channel_renamed]
   \<and> channel.url example_channel = channel.url example_channel_renamed
   \<and> channel.name example_channel \<noteq> channel.name example_channel_renamed
   \<and> playlist.channels (removeDuplicates (sortChannels example_playlist_dup)) =
       [example_channel_renamed]
   \<and> example_channel \<notin> set (playlist.channels (removeDuplicates (sortChannels example_playlist_dup)))"
  by (simp add: sort_dedupe_example)
    (simp add: example_playlist_dup_def example_channel_renamed_def example_channel_eq)

lemma sort_key_head_least:
  fixes f :: "'a \<Rightarrow> 'k::linorder"
  assumes "sort_key f xs = m # rest" and "x \<in> set xs"
  shows "f m \<le> f x"
proof -
  have "sorted (map f (m # rest))"
    using sorted_sort_key [of f xs] assms(1) by simp
  moreover have "x \<in> set (m # rest)"
    using assms by (metis set_sort)
  ultimately show ?thesis by auto
qed

text \<open>
  Claim C6, amended. For every playlist containing two entries with identical \<open>url\<close>
  (not the name of a property inherited by the buffer object) but different \<open>name\<close>,
  after the stages \<open>sortChannels\<close> and \<open>removeDuplicates\<close> in the order of \<open>main\<close>, the
  entry with the greater name does not survive, whichever came first before the sort:
  exactly one entry with that url survives, it is an entry of least name among the
  entries with that url, and it is the entry with the lesser name when the two are the
  only entries with that url.
\<close>

theorem sort_dedupe_keeps_least_name:
  assumes a: "a \<in> set (playlist.channels p)" and b: "b \<in> set (playlist.channels p)"
    and url: "channel.url a = channel.url b"
    and name: "channel.name a < channel.name b"
    and key: "channel.url a \<notin> set object_prototype_keys"
  shows "b \<notin> set (playlist.channels (removeDuplicates (sortChannels p)))
    \<and> (\<exists>m. filter (\<lambda>c. channel.url c = channel.url a)
              (playlist.channels (removeDuplicates (sortChannels p))) = [m]
          \<and> m \<in> set (playlist.channels p)
          \<and> (\<forall>c \<in> set (playlist.channels p).
                channel.url c = channel.url a \<longrightarrow> channel.name m \<le> channel.name c)
          \<and> ((\<forall>c \<in> set (playlist.channels p).
                channel.url c = channel.url a \<longrightarrow> c = a \<or> c = b) \<longrightarrow> m = a))"
proof -
  let ?u = "channel.url a"
  let ?k = "\<lambda>c. (channel.name c, channel.url c)"
  let ?F = "filter (\<lambda>c. channel.url c = ?u) (playlist.channels p)"
  let ?out = "playlist.channels (removeDuplicates (sortChannels p))"
  have out: "filter (\<lambda>c. channel.url c = ?u) ?out = take 1 (sort_key ?k ?F)"
    using key removeDuplicates_first_seen [of ?u "sortChannels p"]
    by (simp add: sortChannels_def sortBy_name_url_def filter_sort)
  have aF: "a \<in> set ?F" using a by simp
  then have "sort_key ?k ?F \<noteq> []"
    by (metis empty_iff list.set(1) set_sort)
  then obtain m rest where s: "sort_key ?k ?F = m # rest"
    by (cases "sort_key ?k ?F") auto
  have m1: "filter (\<lambda>c. channel.url c = ?u) ?out = [m]"
    using out s by simp
  have "m \<in> set (sort_key ?k ?F)" using s by simp
  then have mF: "m \<in> set ?F" by (simp only: set_sort)
  then have m2: "m \<in> set (playlist.channels p)" and mu: "channel.url m = ?u" by simp_all
  have least: "channel.name m \<le> channel.name c"
    if "c \<in> set (playlist.channels p)" and "channel.url c = ?u" for c
  proof -
    from that have "c \<in> set ?F" by simp
    then have "?k m \<le> ?k c" using sort_key_head_least [OF s] by blast
    then show ?thesis by (auto simp: less_eq_prod_def)
  qed
  have nb: "m \<noteq> b"
    using least [OF a] name by auto
  have "b \<notin> set ?out"
  proof
    assume "b \<in> set ?out"
    then have "b \<in> set (filter (\<lambda>c. channel.url c = ?u) ?out)" using url by simp
    then show False using m1 nb by simp
  qed
  moreover have "m = a" if "\<forall>c \<in> set (playlist.channels p). channel.url c = ?u \<longrightarrow> c = a \<or> c = b"
    using that m2 mu nb by blast
  ultimately show ?thesis using m1 m2 least by blast
qed

theorem sort_dedupe_keeps_least_name_witness:
  "example_channel_renamed \<in> set (playlist.channels example_playlist_dup)
   \<and> example_channel \<in> set (playlist.channels example_playlist_dup)
   \<and> channel.url example_channel_renamed = channel.url example_channel
   \<and> channel.name example_channel_renamed < channel.name example_channel
   \<and> channel.url example_channel_renamed \<notin> set object_prototype_keys
   \<and> example_channel \<notin> set (playlist.channels (removeDuplicates (sortChannels example_playlist_dup)))"
proof -
  have h: "example_channel_renamed \<in> set (playlist.channels example_playlist_dup)"
    "example_channel \<in> set (playlist.channels example_playlist_dup)"
    "channel.url example_channel_renamed = channel.url example_channel"
    "channel.name example_channel_renamed < channel.name example_channel"
    "channel.url example_channel_renamed \<notin> set object_prototype_keys"
    by (simp_all add: example_playlist_dup_def example_channel_renamed_def example_channel_eq
        object_prototype_keys_def)
  show ?thesis
    using sort_dedupe_keeps_least_name [OF h] h by simp
qed

section \<open>Properties of the resolution prober\<close>

lemma variants_example_manifest:
  "variants example_manifest =
     [\<lparr>width = Some 1280, height = Some 720\<rparr>, \<lparr>width = Some 1920, height = Some 1080\<rparr>]"
  by (simp add: variants_def example_manifest_def nl_def match_variant_at_def strip_prefix_def
      string_simps)

lemma variants_example_manifest_tie:
  "variants example_manifest_tie =
     [\<lparr>width = Some 1280, height = Some 720\<rparr>, \<lparr>width = Some 960, height = Some 720\<rparr>]"
  by (simp add: variants_def example_manifest_tie_def nl_def match_variant_at_def strip_prefix_def
      string_simps)

lemma parseResolution_example_manifest_tie:
  "parseResolution example_manifest_tie = Some \<lparr>width = Some 960, height = Some 720\<rparr>"
  by (simp add: parseResolution_def variants_example_manifest_tie to_number_def pick_def)

lemma prefix_example_manifest_tie: "strip_prefix ''#EXTM3U'' example_manifest_tie \<noteq> None"
  by (simp add: strip_prefix_def example_manifest_tie_def)

text \<open>
  Claim C7, as stated, fails on the code: when two variants tie on the greatest height,
  the later one is selected, not the first one encountered.
\<close>

theorem parseResolution_tie_last_wins:
  "variants example_manifest_tie =
     [\<lparr>width = Some 1280, height = Some 720\<rparr>, \<lparr>width = Some 960, height = Some 720\<rparr>]
   \<and> parseResolution example_manifest_tie = Some \<lparr>width = Some 960, height = Some 720\<rparr>
   \<and> parseResolution example_manifest_tie \<noteq> Some \<lparr>width = Some 1280, height = Some 720\<rparr>"
  by (simp add: parseResolution_example_manifest_tie variants_example_manifest_tie)

lemma foldl_pick_last_greatest:
  "\<exists>pre post. first # others = pre @ foldl pick first others # post
     \<and> (\<forall>x \<in> set pre. to_number (height x) \<le> to_number (height (foldl pick first others)))
     \<and> (\<forall>x \<in> set post. to_number (height x) < to_number (height (foldl pick first others)))"
proof (induction others rule: rev_induct)
  case Nil
  show ?case by (intro exI [of _ "[]"]) simp
next
  case (snoc x xs)
  let ?r = "foldl pick first xs"
  from snoc obtain pre post where
    dec: "first # xs = pre @ ?r # post" and
    le: "\<forall>y \<in> set pre. to_number (height y) \<le> to_number (height ?r)" and
    lt: "\<forall>y \<in> set post. to_number (height y) < to_number (height ?r)"
    by blast
  show ?case
  proof (cases "to_number (height ?r) > to_number (height x)")
    case True
    then have r: "foldl pick first (xs @ [x]) = ?r" by (simp add: pick_def)
    have "first # xs @ [x] = pre @ ?r # (post @ [x])" using dec by simp
    moreover have "\<forall>y \<in> set (post @ [x]). to_number (height y) < to_number (height ?r)"
      using lt True by auto
    ultimately show ?thesis unfolding r using le by blast
  next
    case False
    then have r: "foldl pick first (xs @ [x]) = x" by (simp add: pick_def)
    have "first # xs @ [x] = (first # xs) @ x # []" by simp
    moreover have "\<forall>y \<in> set (first # xs). to_number (height y) \<le> to_number (height x)"
    proof
      fix y assume "y \<in> set (first # xs)"
      then have "y \<in> set pre \<or> y = ?r \<or> y \<in> set post" using dec by (metis Un_iff set_ConsD set_append)
      then have "to_number (height y) \<le> to_number (height ?r)" using le lt by auto
      then show "to_number (height y) \<le> to_number (height x)" using False by simp
    qed
    ultimately show ?thesis unfolding r by (metis empty_iff list.set(1))
  qed
qed

lemma parseResolution_eq:
  "parseResolution body =
     (case variants body of [] \<Rightarrow> None | first # others \<Rightarrow> Some (foldl pick first others))"
  by (simp add: parseResolution_def Let_def)

lemma detect_channel_skips:
  "detect_channel None c = c"
  "response.status r \<noteq> 200 \<Longrightarrow> detect_channel (Some r) c = c"
  "strip_prefix ''#EXTM3U'' (data r) = None \<Longrightarrow> detect_channel (Some r) c = c"
  "variants (data r) = [] \<Longrightarrow> detect_channel (Some r) c = c"
  by (simp_all add: detect_channel_def parseResolution_def)

lemma x_not_digit: "\<not> is_digit CHR ''x''"
  by (simp add: is_digit_def)

lemma takeWhile_all_stop:
  "\<forall>c \<in> set w. P c \<Longrightarrow> \<not> P y \<Longrightarrow> takeWhile P (w @ y # ys) = w"
  by (induction w) auto

lemma dropWhile_all_stop:
  "\<forall>c \<in> set w. P c \<Longrightarrow> \<not> P y \<Longrightarrow> dropWhile P (w @ y # ys) = y # ys"
  by (induction w) auto

lemma takeWhile_all_end:
  "\<forall>c \<in> set h. P c \<Longrightarrow> (case rest of [] \<Rightarrow> True | c # _ \<Rightarrow> \<not> P c)
     \<Longrightarrow> takeWhile P (h @ rest) = h \<and> dropWhile P (h @ rest) = rest"
  by (induction h) (auto split: list.splits)

lemma strip_prefix_Some: "strip_prefix p s = Some r \<longleftrightarrow> s = p @ r"
proof
  assume "strip_prefix p s = Some r"
  then have "take (length p) s = p" and "r = drop (length p) s"
    by (auto simp: strip_prefix_def split: if_splits)
  then show "s = p @ r" using append_take_drop_id [of "length p" s] by simp
next
  assume "s = p @ r"
  then show "strip_prefix p s = Some r" by (simp add: strip_prefix_def)
qed

lemma match_variant_at_iff:
  "match_variant_at s = Some (w, h, rest) \<longleftrightarrow>
     s = ''RESOLUTION='' @ w @ CHR ''x'' # h @ rest
     \<and> w \<noteq> [] \<and> (\<forall>c \<in> set w. is_digit c)
     \<and> h \<noteq> [] \<and> (\<forall>c \<in> set h. is_digit c)
     \<and> (case rest of [] \<Rightarrow> True | c # _ \<Rightarrow> \<not> is_digit c)"
proof
  assume m: "match_variant_at s = Some (w, h, rest)"
  then obtain r where r: "strip_prefix ''RESOLUTION='' s = Some r"
    by (auto simp: match_variant_at_def split: option.splits)
  then have s: "s = ''RESOLUTION='' @ r"
    by (simp only: strip_prefix_Some)
  from m r obtain r' where
    w: "w = takeWhile is_digit r" and d: "dropWhile is_digit r = CHR ''x'' # r'" and
    h: "h = takeWhile is_digit r'" and rest: "rest = dropWhile is_digit r'" and
    ne: "w \<noteq> []" "h \<noteq> []"
    by (auto simp: match_variant_at_def Let_def split: list.splits if_splits)
  have "r = w @ CHR ''x'' # r'"
    using takeWhile_dropWhile_id [of is_digit r] w d by simp
  moreover have "r' = h @ rest"
    using takeWhile_dropWhile_id [of is_digit r'] h rest by simp
  moreover have "\<forall>c \<in> set w. is_digit c" using w by (auto dest: set_takeWhileD)
  moreover have "\<forall>c \<in> set h. is_digit c" using h by (auto dest: set_takeWhileD)
  moreover have "case rest of [] \<Rightarrow> True | c # _ \<Rightarrow> \<not> is_digit c"
  proof (cases rest)
    case Nil
    then show ?thesis by simp
  next
    case (Cons a list)
    then have "dropWhile is_digit r' \<noteq> []" and "hd (dropWhile is_digit r') = a"
      using rest by simp_all
    then have "\<not> is_digit a" using hd_dropWhile [of is_digit r'] by auto
    then show ?thesis using Cons by simp
  qed
  ultimately show "s = ''RESOLUTION='' @ w @ CHR ''x'' # h @ rest
     \<and> w \<noteq> [] \<and> (\<forall>c \<in> set w. is_digit c)
     \<and> h \<noteq> [] \<and> (\<forall>c \<in> set h. is_digit c)
     \<and> (case rest of [] \<Rightarrow> True | c # _ \<Rightarrow> \<not> is_digit c)"
    using s ne by simp
next
  assume a: "s = ''RESOLUTION='' @ w @ CHR ''x'' # h @ rest
     \<and> w \<noteq> [] \<and> (\<forall>c \<in> set w. is_digit c)
     \<and> h \<noteq> [] \<and> (\<forall>c \<in> set h. is_digit c)
     \<and> (case rest of [] \<Rightarrow> True | c # _ \<Rightarrow> \<not> is_digit c)"
  then have sp: "strip_prefix ''RESOLUTION='' s = Some (w @ CHR ''x'' # h @ rest)"
    by (simp only: strip_prefix_Some)
  have tw: "takeWhile is_digit (w @ CHR ''x'' # h @ rest) = w"
    and dw: "dropWhile is_digit (w @ CHR ''x'' # h @ rest) = CHR ''x'' # h @ rest"
    using a x_not_digit by (simp_all add: takeWhile_all_stop dropWhile_all_stop)
  have th: "takeWhile is_digit (h @ rest) = h \<and> dropWhile is_digit (h @ rest) = rest"
    using a by (intro takeWhile_all_end) simp_all
  from a have ne: "w \<noteq> []" "h \<noteq> []" by simp_all
  show "match_variant_at s = Some (w, h, rest)"
    unfolding match_variant_at_def sp using tw dw th ne by simp
qed

lemma matchAll_variants_Nil_iff:
  "matchAll_variants body = [] \<longleftrightarrow>
     (\<forall>pre suf. body = pre @ suf \<longrightarrow> match_variant_at suf = None)"
proof (induction body rule: matchAll_variants.induct)
  case 1
  then show ?case by (simp add: match_variant_at_def strip_prefix_def)
next
  case (2 c cs)
  show ?case
  proof (cases "match_variant_at (c # cs)")
    case None
    have "(\<forall>pre suf. c # cs = pre @ suf \<longrightarrow> match_variant_at suf = None) \<longleftrightarrow>
          (\<forall>pre suf. cs = pre @ suf \<longrightarrow> match_variant_at suf = None)"
    proof
      assume l: "\<forall>pre suf. c # cs = pre @ suf \<longrightarrow> match_variant_at suf = None"
      show "\<forall>pre suf. cs = pre @ suf \<longrightarrow> match_variant_at suf = None"
      proof (intro allI impI)
        fix pre suf assume "cs = pre @ suf"
        then have "c # cs = (c # pre) @ suf" by simp
        then show "match_variant_at suf = None" using l by blast
      qed
    next
      assume r: "\<forall>pre suf. cs = pre @ suf \<longrightarrow> match_variant_at suf = None"
      show "\<forall>pre suf. c # cs = pre @ suf \<longrightarrow> match_variant_at suf = None"
      proof (intro allI impI)
        fix pre suf assume e: "c # cs = pre @ suf"
        show "match_variant_at suf = None"
        proof (cases pre)
          case Nil
          then show ?thesis using e None by simp
        next
          case (Cons a pre')
          then have "cs = pre' @ suf" using e by simp
          then show ?thesis using r by blast
        qed
      qed
    qed
    then show ?thesis using None "2.IH"(1) by simp
  next
    case (Some m)
    then have "\<not> (\<forall>pre suf. c # cs = pre @ suf \<longrightarrow> match_variant_at suf = None)"
      by (metis append_Nil option.distinct(1))
    then show ?thesis using Some by (auto split: prod.splits)
  qed
qed

lemma matchAll_variants_step:
  assumes "match_variant_at suf = Some (w, h, rest)"
    and "\<forall>p1 p2. pre = p1 @ p2 \<and> p2 \<noteq> [] \<longrightarrow> match_variant_at (p2 @ suf) = None"
  shows "matchAll_variants (pre @ suf) = (w, h) # matchAll_variants rest"
  using assms(2)
proof (induction pre)
  case Nil
  from assms(1) obtain c cs where "suf = c # cs"
    by (cases suf) (auto simp: match_variant_at_def strip_prefix_Some split: option.splits)
  then show ?case using assms(1) by simp
next
  case (Cons c pre)
  have "match_variant_at ((c # pre) @ suf) = None"
    using Cons.prems by (metis append_Nil list.distinct(1))
  moreover have "\<forall>p1 p2. pre = p1 @ p2 \<and> p2 \<noteq> [] \<longrightarrow> match_variant_at (p2 @ suf) = None"
    using Cons.prems by (metis append_Cons)
  ultimately show ?case using Cons.IH by simp
qed

lemma variants_Nil_iff:
  "variants body = [] \<longleftrightarrow> (\<forall>pre suf. body = pre @ suf \<longrightarrow> match_variant_at suf = None)"
  by (simp add: variants_def matchAll_variants_Nil_iff)

lemma variants_step:
  assumes "match_variant_at suf = Some (w, h, rest)"
    and "\<forall>p1 p2. pre = p1 @ p2 \<and> p2 \<noteq> [] \<longrightarrow> match_variant_at (p2 @ suf) = None"
  shows "variants (pre @ suf) =
           \<lparr>width = Some (parseInt w), height = Some (parseInt h)\<rparr> # variants rest"
  using matchAll_variants_step [OF assms] by (simp add: variants_def)

lemma variants_example_manifest_three:
  "variants example_manifest_three =
     [\<lparr>width = Some 640, height = Some 360\<rparr>, \<lparr>width = Some 1280, height = Some 720\<rparr>,
      \<lparr>width = Some 1920, height = Some 1080\<rparr>]"
  by (simp add: variants_def example_manifest_three_def nl_def match_variant_at_def
      strip_prefix_def string_simps)

lemma parseResolution_example_manifest_three:
  "parseResolution example_manifest_three = Some \<lparr>width = Some 1920, height = Some 1080\<rparr>"
  by (simp add: parseResolution_def variants_example_manifest_three to_number_def pick_def)

lemma no_match_in_short_prefix:
  "\<forall>p1 p2. ''a '' = p1 @ p2 \<and> p2 \<noteq> [] \<longrightarrow> match_variant_at (p2 @ suf) = None"
proof (intro allI impI)
  fix p1 p2 :: string assume "''a '' = p1 @ p2 \<and> p2 \<noteq> []"
  then have "p2 = ''a '' \<or> p2 = '' ''"
    by (auto simp: Cons_eq_append_conv)
  then show "match_variant_at (p2 @ suf) = None"
    by (auto simp: match_variant_at_def strip_prefix_def)
qed

text \<open>
  Claim C7, amended. For every response body:
  \<^item> a marker is read at a position exactly when the text there is \<open>RESOLUTION=\<close>, a
    non-empty run of digits, \<open>x\<close> and a non-empty run of digits that no further digit
    follows; the variants are the markers from left to right with their numbers (safe
    integers) as width and height, each search starting where the previous marker
    ended, and there is none when no position holds a marker;
  \<^item> without a marker nothing is selected;
  \<^item> with at least one marker, all numbers being safe integers, the selected resolution
    is a variant of greatest height, and when several variants tie on the greatest
    height it is the last of them: no variant before it is higher, every variant after
    it is strictly lower; for a successful response whose body starts with the manifest
    marker, \<open>detectResolution\<close> assigns the selected resolution to the channel;
  \<^item> a body with \<open>RESOLUTION=1280x720\<close> and then \<open>RESOLUTION=1920x1080\<close> yields width 1920
    and height 1080, and so does a body with the three variants 640x360, 1280x720 and
    1920x1080.
\<close>

theorem parseResolution_greatest_height:
  "(match_variant_at s = Some (w, h, rest) \<longleftrightarrow>
      s = ''RESOLUTION='' @ w @ CHR ''x'' # h @ rest
      \<and> w \<noteq> [] \<and> (\<forall>c \<in> set w. is_digit c)
      \<and> h \<noteq> [] \<and> (\<forall>c \<in> set h. is_digit c)
      \<and> (case rest of [] \<Rightarrow> True | c # _ \<Rightarrow> \<not> is_digit c))
   \<and> (variants body = [] \<longleftrightarrow>
        (\<forall>pre suf. body = pre @ suf \<longrightarrow> match_variant_at suf = None))
   \<and> (match_variant_at suf = Some (w', h', rest')
        \<and> (\<forall>p1 p2. pre = p1 @ p2 \<and> p2 \<noteq> [] \<longrightarrow> match_variant_at (p2 @ suf) = None)
        \<and> safe_integer (parseInt w') \<and> safe_integer (parseInt h')
        \<longrightarrow> variants (pre @ suf) =
              \<lparr>width = Some (parseInt w'), height = Some (parseInt h')\<rparr> # variants rest')
   \<and> (variants body = [] \<longrightarrow> parseResolution body = None)
   \<and> (variants body \<noteq> []
        \<and> (\<forall>v \<in> set (variants body).
              safe_integer (to_number (width v)) \<and> safe_integer (to_number (height v)))
        \<longrightarrow>
        (\<exists>r before after. parseResolution body = Some r
           \<and> variants body = before @ r # after
           \<and> (\<forall>v \<in> set before. to_number (height v) \<le> to_number (height r))
           \<and> (\<forall>v \<in> set after. to_number (height v) < to_number (height r))
           \<and> (strip_prefix ''#EXTM3U'' body \<noteq> None \<longrightarrow>
                detect_channel (Some \<lparr>status = 200, data = body\<rparr>) c
                  = c\<lparr>channel.resolution := r\<rparr>)))
   \<and> parseResolution example_manifest = Some \<lparr>width = Some 1920, height = Some 1080\<rparr>
   \<and> parseResolution example_manifest_three = Some \<lparr>width = Some 1920, height = Some 1080\<rparr>"
proof (intro conjI impI)
  show "match_variant_at s = Some (w, h, rest) \<longleftrightarrow>
      s = ''RESOLUTION='' @ w @ CHR ''x'' # h @ rest
      \<and> w \<noteq> [] \<and> (\<forall>c \<in> set w. is_digit c)
      \<and> h \<noteq> [] \<and> (\<forall>c \<in> set h. is_digit c)
      \<and> (case rest of [] \<Rightarrow> True | c # _ \<Rightarrow> \<not> is_digit c)"
    by (rule match_variant_at_iff)
next
  show "variants body = [] \<longleftrightarrow>
        (\<forall>pre suf. body = pre @ suf \<longrightarrow> match_variant_at suf = None)"
    by (rule variants_Nil_iff)
next
  assume "match_variant_at suf = Some (w', h', rest')
        \<and> (\<forall>p1 p2. pre = p1 @ p2 \<and> p2 \<noteq> [] \<longrightarrow> match_variant_at (p2 @ suf) = None)
        \<and> safe_integer (parseInt w') \<and> safe_integer (parseInt h')"
  then show "variants (pre @ suf) =
              \<lparr>width = Some (parseInt w'), height = Some (parseInt h')\<rparr> # variants rest'"
    using variants_step by blast
next
  show "parseResolution example_manifest = Some \<lparr>width = Some 1920, height = Some 1080\<rparr>"
    by (simp add: parseResolution_def variants_example_manifest to_number_def pick_def)
next
  show "parseResolution example_manifest_three
          = Some \<lparr>width = Some 1920, height = Some 1080\<rparr>"
    by (rule parseResolution_example_manifest_three)
next
  assume "variants body = []"
  then show "parseResolution body = None" by (simp add: parseResolution_def)
next
  assume "variants body \<noteq> []
        \<and> (\<forall>v \<in> set (variants body).
              safe_integer (to_number (width v)) \<and> safe_integer (to_number (height v)))"
  then obtain first others where v: "variants body = first # others"
    by (cases "variants body") auto
  let ?r = "foldl pick first others"
  have p: "parseResolution body = Some ?r" by (simp add: parseResolution_eq v)
  from foldl_pick_last_greatest [of first others] obtain before after where
    "first # others = before @ ?r # after"
    "\<forall>x \<in> set before. to_number (height x) \<le> to_number (height ?r)"
    "\<forall>x \<in> set after. to_number (height x) < to_number (height ?r)"
    by blast
  moreover have "strip_prefix ''#EXTM3U'' body \<noteq> None \<longrightarrow>
      detect_channel (Some \<lparr>status = 200, data = body\<rparr>) c = c\<lparr>channel.resolution := ?r\<rparr>"
    by (auto simp: detect_channel_def p)
  ultimately show "\<exists>r before after. parseResolution body = Some r
           \<and> variants body = before @ r # after
           \<and> (\<forall>v \<in> set before. to_number (height v) \<le> to_number (height r))
           \<and> (\<forall>v \<in> set after. to_number (height v) < to_number (height r))
           \<and> (strip_prefix ''#EXTM3U'' body \<noteq> None \<longrightarrow>
                detect_channel (Some \<lparr>status = 200, data = body\<rparr>) c
                  = c\<lparr>channel.resolution := r\<rparr>)"
    using p v by metis
qed

theorem parseResolution_greatest_height_witness:
  "match_variant_at ''RESOLUTION=1x2 b'' = Some (''1'', ''2'', '' b'')
   \<and> safe_integer (parseInt ''1'') \<and> safe_integer (parseInt ''2'')
   \<and> variants ''a RESOLUTION=1x2 b'' = [\<lparr>width = Some 1, height = Some 2\<rparr>]
   \<and> variants ''#EXTM3U'' = [] \<and> parseResolution ''#EXTM3U'' = None
   \<and> variants example_manifest_tie \<noteq> []
   \<and> list_all (\<lambda>v. safe_integer (to_number (width v)) \<and> safe_integer (to_number (height v)))
        (variants example_manifest_tie)
   \<and> strip_prefix ''#EXTM3U'' example_manifest_tie \<noteq> None
   \<and> parseResolution example_manifest_tie = Some \<lparr>width = Some 960, height = Some 720\<rparr>
   \<and> detect_channel (Some \<lparr>status = 200, data = example_manifest_tie\<rparr>) example_channel
       = example_channel\<lparr>channel.resolution := \<lparr>width = Some 960, height = Some 720\<rparr>\<rparr>"
proof -
  have m: "match_variant_at ''RESOLUTION=1x2 b'' = Some (''1'', ''2'', '' b'')"
    by (simp add: match_variant_at_def strip_prefix_def is_digit_def)
  have b: "variants '' b'' = []"
    by (simp add: variants_def match_variant_at_def strip_prefix_def)
  have e: "variants ''#EXTM3U'' = []"
    by (simp add: variants_def match_variant_at_def strip_prefix_def)
  have n: "variants example_manifest_tie \<noteq> []"
    by (simp add: variants_example_manifest_tie)
  have s: "\<forall>v \<in> set (variants example_manifest_tie).
             safe_integer (to_number (width v)) \<and> safe_integer (to_number (height v))"
    by (simp add: variants_example_manifest_tie safe_integer_def to_number_def)
  have one: "parseInt ''1'' = 1" "parseInt ''2'' = 2"
    by (simp_all add: string_simps)
  have sf: "safe_integer (parseInt ''1'')" "safe_integer (parseInt ''2'')"
    by (simp_all add: one safe_integer_def)
  show ?thesis
    using parseResolution_greatest_height [of "''RESOLUTION=1x2 b''" "''1''" "''2''" "'' b''"
        "''#EXTM3U''" "''RESOLUTION=1x2 b''" "''1''" "''2''" "'' b''" "''a ''" example_channel]
      parseResolution_greatest_height [of "''RESOLUTION=1x2 b''" "''1''" "''2''" "'' b''"
        example_manifest_tie "''RESOLUTION=1x2 b''" "''1''" "''2''" "'' b''" "''a ''"
        example_channel]
      m b e n s one sf no_match_in_short_prefix [of "''RESOLUTION=1x2 b''"]
      prefix_example_manifest_tie parseResolution_example_manifest_tie
    by (auto simp: list_all_iff)
qed

section \<open>Properties of the EPG merge\<close>

lemma update_channel_frame:
  "channel.url (update_channel U guide c) = channel.url c"
  "channel.name (update_channel U guide c) = channel.name c"
  by (auto simp: update_channel_def Let_def split: option.splits list.splits)

lemma update_channel_hit:
  assumes "tvg.id (channel.tvg c) \<noteq> []" and "guide (tvg.id (channel.tvg c)) = Some e"
  shows "tvg.name (channel.tvg (update_channel U guide c)) =
           (if tvg.name (channel.tvg c) = []
            then (case epg_item.name e of n # _ \<Rightarrow> epg_name.value n | [] \<Rightarrow> [])
            else tvg.name (channel.tvg c))"
    and "channel.languages (update_channel U guide c) =
           (if channel.languages c = []
            then (case epg_item.name e of
                    n # _ \<Rightarrow> (case lang n of
                                Some l \<Rightarrow> if l \<noteq> [] then utils.parseLanguages U l else []
                              | None \<Rightarrow> [])
                  | [] \<Rightarrow> [])
            else channel.languages c)"
    and "channel.logo (update_channel U guide c) =
           (if channel.logo c = []
            then (case icon e of i # _ \<Rightarrow> i | [] \<Rightarrow> [])
            else channel.logo c)"
  using assms
  by (auto simp: update_channel_def Let_def truthy_def split: option.splits list.splits)

lemma update_channel_keeps:
  "tvg.name (channel.tvg c) \<noteq> [] \<Longrightarrow>
     tvg.name (channel.tvg (update_channel U guide c)) = tvg.name (channel.tvg c)"
  "channel.languages c \<noteq> [] \<Longrightarrow>
     channel.languages (update_channel U guide c) = channel.languages c"
  "channel.logo c \<noteq> [] \<Longrightarrow> channel.logo (update_channel U guide c) = channel.logo c"
  by (auto simp: update_channel_def Let_def split: option.splits list.splits)

text \<open>
  Claim C8. The EPG merge never overwrites a populated field: a channel's
  \<open>tvg.name\<close>, \<open>languages\<close> and \<open>logo\<close> that are non-empty before the merge are the same
  after it, whatever the guide holds. The decision is taken field by field: on a guide
  hit each of the three fields after the merge is a function of that field before the
  merge and of the guide entry alone (filled from the guide when empty, kept otherwise).
  The same holds for every channel of a playlist that the stage \<open>updateFromEPG\<close>
  returns.
\<close>

theorem epg_merge_never_overwrites:
  "(tvg.name (channel.tvg c) \<noteq> [] \<longrightarrow>
      tvg.name (channel.tvg (update_channel U guide c)) = tvg.name (channel.tvg c))
   \<and> (channel.languages c \<noteq> [] \<longrightarrow>
      channel.languages (update_channel U guide c) = channel.languages c)
   \<and> (channel.logo c \<noteq> [] \<longrightarrow>
      channel.logo (update_channel U guide c) = channel.logo c)
   \<and> (tvg.id (channel.tvg c) \<noteq> [] \<and> guide (tvg.id (channel.tvg c)) = Some e \<longrightarrow>
      tvg.name (channel.tvg (update_channel U guide c)) =
        (if tvg.name (channel.tvg c) = []
         then (case epg_item.name e of n # _ \<Rightarrow> epg_name.value n | [] \<Rightarrow> [])
         else tvg.name (channel.tvg c))
      \<and> channel.languages (update_channel U guide c) =
        (if channel.languages c = []
         then (case epg_item.name e of
                 n # _ \<Rightarrow> (case lang n of
                             Some l \<Rightarrow> if l \<noteq> [] then utils.parseLanguages U l else []
                           | None \<Rightarrow> [])
               | [] \<Rightarrow> [])
         else channel.languages c)
      \<and> channel.logo (update_channel U guide c) =
        (if channel.logo c = []
         then (case icon e of i # _ \<Rightarrow> i | [] \<Rightarrow> [])
         else channel.logo c))
   \<and> (updateFromEPG cfg U parseEPG p = Some p' \<longrightarrow>
      length (playlist.channels p') = length (playlist.channels p)
      \<and> (\<forall>i < length (playlist.channels p).
            (tvg.name (channel.tvg (playlist.channels p ! i)) \<noteq> [] \<longrightarrow>
               tvg.name (channel.tvg (playlist.channels p' ! i)) =
               tvg.name (channel.tvg (playlist.channels p ! i)))
          \<and> (channel.languages (playlist.channels p ! i) \<noteq> [] \<longrightarrow>
               channel.languages (playlist.channels p' ! i) =
               channel.languages (playlist.channels p ! i))
          \<and> (channel.logo (playlist.channels p ! i) \<noteq> [] \<longrightarrow>
               channel.logo (playlist.channels p' ! i) =
               channel.logo (playlist.channels p ! i))))"
proof (intro conjI impI)
  assume "updateFromEPG cfg U parseEPG p = Some p'"
  then consider "p' = p"
    | g where "p' = p\<lparr>playlist.channels := map (update_channel U g) (playlist.channels p)\<rparr>"
    by (auto simp: updateFromEPG_def split: if_splits option.splits epg_load.splits)
  then show "length (playlist.channels p') = length (playlist.channels p)"
    by cases simp_all
next
  assume "updateFromEPG cfg U parseEPG p = Some p'"
  then consider "p' = p"
    | g where "p' = p\<lparr>playlist.channels := map (update_channel U g) (playlist.channels p)\<rparr>"
    by (auto simp: updateFromEPG_def split: if_splits option.splits epg_load.splits)
  then show "\<forall>i < length (playlist.channels p).
            (tvg.name (channel.tvg (playlist.channels p ! i)) \<noteq> [] \<longrightarrow>
               tvg.name (channel.tvg (playlist.channels p' ! i)) =
               tvg.name (channel.tvg (playlist.channels p ! i)))
          \<and> (channel.languages (playlist.channels p ! i) \<noteq> [] \<longrightarrow>
               channel.languages (playlist.channels p' ! i) =
               channel.languages (playlist.channels p ! i))
          \<and> (channel.logo (playlist.channels p ! i) \<noteq> [] \<longrightarrow>
               channel.logo (playlist.channels p' ! i) =
               channel.logo (playlist.channels p ! i))"
    by cases (simp_all add: update_channel_keeps)
qed (simp_all add: update_channel_keeps update_channel_hit)

theorem epg_merge_never_overwrites_witness:
  "tvg.name (channel.tvg example_channel_named) \<noteq> []
   \<and> channel.languages example_channel_named \<noteq> []
   \<and> channel.logo example_channel_named \<noteq> []
   \<and> tvg.id (channel.tvg example_channel_named) \<noteq> []
   \<and> example_guide (tvg.id (channel.tvg example_channel_named)) = Some example_guide_item
   \<and> tvg.name (channel.tvg (update_channel example_utils example_guide example_channel_named))
       = ''BBC One''
   \<and> channel.languages (update_channel example_utils example_guide example_channel_named)
       = [\<lparr>language.code = ''eng'', name = ''English''\<rparr>]
   \<and> channel.logo (update_channel example_utils example_guide example_channel_named)
       = ''http://logo.example/bbc.png''
   \<and> updateFromEPG example_config example_utils (\<lambda>u. Resolved (Some example_guide))
         example_playlist = Some example_playlist
   \<and> 0 < length (playlist.channels example_playlist)"
proof -
  have pop: "tvg.name (channel.tvg example_channel_named) = ''BBC One''"
    "channel.languages example_channel_named = [\<lparr>language.code = ''eng'', name = ''English''\<rparr>]"
    "channel.logo example_channel_named = ''http://logo.example/bbc.png''"
    "tvg.id (channel.tvg example_channel_named) = ''BBCOne.uk''"
    by (simp_all add: example_channel_named_def example_channel_eq)
  have hit: "example_guide (tvg.id (channel.tvg example_channel_named)) = Some example_guide_item"
    by (simp add: pop example_guide_def)
  have same: "update_channel example_utils example_guide example_channel_named
                = example_channel_named"
    using hit pop by (simp add: update_channel_def example_guide_item_def truthy_def)
  have stage: "updateFromEPG example_config example_utils (\<lambda>u. Resolved (Some example_guide))
         example_playlist = Some example_playlist"
    by (simp add: updateFromEPG_def example_config_def example_playlist_def example_header_def
        same)
  show ?thesis
    using epg_merge_never_overwrites [of example_channel_named example_utils example_guide
        example_guide_item example_config "\<lambda>u. Resolved (Some example_guide)"
        example_playlist example_playlist]
      pop hit stage
    by (simp add: example_playlist_def)
qed

lemma epg_gap_fill_example:
  "tvg.name (channel.tvg (update_channel example_utils example_guide example_channel))
       = ''BBC One London''
   \<and> channel.logo (update_channel example_utils example_guide example_channel)
       = ''http://logo.example/bbc.png''"
  by (simp add: update_channel_def example_channel_eq example_guide_def example_guide_item_def truthy_def)

section \<open>Properties of the serializer\<close>

lemma upper_char_lower: "is_lower x \<Longrightarrow> upper_char x \<noteq> x"
  by (auto simp: is_lower_def upper_char_def lower_letters_def upper_letters_def)

lemma upper_char_idem: "upper_char (upper_char x) = upper_char x"
proof (cases "is_lower x")
  case True
  then show ?thesis
    by (auto simp: is_lower_def upper_char_def lower_letters_def upper_letters_def)
next
  case False
  then have "map_of (zip lower_letters upper_letters) x = None"
    by (simp add: is_lower_def lower_letters_def upper_letters_def)
  then show ?thesis by (simp add: upper_char_def)
qed

lemma toUpperCase_idem: "toUpperCase (toUpperCase s) = toUpperCase s"
  by (simp add: toUpperCase_def upper_char_idem)

lemma toUpperCase_fixed: "toUpperCase s = s \<Longrightarrow> x \<in> set s \<Longrightarrow> \<not> is_lower x"
  by (induction s) (auto simp: toUpperCase_def upper_char_lower)

lemma snd_Channel_toString: "snd (Channel_toString c short) = uppercase_country c"
  by (simp add: Channel_toString_def uppercase_country_def Let_def)

lemma uppercase_country_idem: "uppercase_country (uppercase_country c) = uppercase_country c"
  by (simp add: uppercase_country_def toUpperCase_idem)

lemma Channel_toString_uppercase:
  "Channel_toString (uppercase_country c) short = Channel_toString c short"
  by (simp add: Channel_toString_def uppercase_country_def toUpperCase_idem tvgUrl_def Let_def)

text \<open>
  Claim C10. Serializing a channel is not a pure read: the channel that
  \<open>Channel.toString\<close> leaves behind is the channel with its declared-country attribute
  \<open>tvg.country\<close> replaced by the upper-cased value and nothing else changed, so it
  differs from the channel before the call whenever that attribute contained a
  lower-case letter.
\<close>

theorem toString_replaces_country:
  "snd (Channel_toString c short) =
     c\<lparr>channel.tvg := (channel.tvg c)\<lparr>tvg.country := toUpperCase (tvg.country (channel.tvg c))\<rparr>\<rparr>
   \<and> ((\<exists>x \<in> set (tvg.country (channel.tvg c)). is_lower x)
        \<longrightarrow> snd (Channel_toString c short) \<noteq> c)"
proof (intro conjI impI)
  show "snd (Channel_toString c short) =
     c\<lparr>channel.tvg := (channel.tvg c)\<lparr>tvg.country := toUpperCase (tvg.country (channel.tvg c))\<rparr>\<rparr>"
    by (simp add: snd_Channel_toString uppercase_country_def)
next
  assume low: "\<exists>x \<in> set (tvg.country (channel.tvg c)). is_lower x"
  show "snd (Channel_toString c short) \<noteq> c"
  proof
    assume "snd (Channel_toString c short) = c"
    then have "tvg.country (channel.tvg (uppercase_country c)) = tvg.country (channel.tvg c)"
      by (simp add: snd_Channel_toString)
    then have "toUpperCase (tvg.country (channel.tvg c)) = tvg.country (channel.tvg c)"
      by (simp add: uppercase_country_def)
    with low show False
      using toUpperCase_fixed by blast
  qed
qed

theorem toString_replaces_country_witness:
  "is_lower CHR ''u'' \<and> CHR ''u'' \<in> set (tvg.country (channel.tvg example_channel))
   \<and> tvg.country (channel.tvg (snd (Channel_toString example_channel True))) = ''UK''
   \<and> snd (Channel_toString example_channel True) \<noteq> example_channel"
proof -
  have low: "\<exists>x \<in> set (tvg.country (channel.tvg example_channel)). is_lower x"
    by (simp add: example_channel_eq is_lower_def lower_letters_def)
  show ?thesis
    using toString_replaces_country [of example_channel True] low
    by (simp add: example_channel_eq is_lower_def string_simps)
qed

lemma toString_loop_eq:
  "toString_loop short cs out vis =
     (out @ concat (map (\<lambda>c. fst (Channel_toString c short)) cs),
      vis @ map uppercase_country cs)"
proof (induction cs arbitrary: out vis)
  case Nil
  then show ?case by simp
next
  case (Cons c cs)
  obtain s c' where sc: "Channel_toString c short = (s, c')"
    by (cases "Channel_toString c short")
  then have "c' = uppercase_country c"
    using snd_Channel_toString [of c short] by simp
  with sc show ?case
    using Cons.IH by simp
qed

lemma Playlist_toString_eq:
  "Playlist_toString p short =
     (join '' '' (''#EXTM3U'' # map (\<lambda>(key, v). key @ ''='' @ dq @ v @ dq)
                    (filter (\<lambda>(key, v). v \<noteq> []) (attrs (playlist.header p)))) @ nl
        @ concat (map (\<lambda>c. fst (Channel_toString c short)) (playlist.channels p)),
      p\<lparr>playlist.channels := map uppercase_country (playlist.channels p)\<rparr>)"
  by (simp add: Playlist_toString_def toString_loop_eq Let_def)

text \<open>
  Serializing a playlist again, in the state in which the first serialization left it,
  produces the same text and leaves the same state.
\<close>

lemma toString_twice_same_text:
  "fst (Playlist_toString (snd (Playlist_toString p short)) short) =
     fst (Playlist_toString p short)
   \<and> snd (Playlist_toString (snd (Playlist_toString p short)) short) =
     snd (Playlist_toString p short)"
  by (simp add: Playlist_toString_eq o_def Channel_toString_uppercase uppercase_country_idem)

lemma run_headers:
  "playlist.header example_playlist_first_run = example_header"
  "playlist.header example_playlist_second_run = example_header"
  by (simp_all add: example_playlist_first_run_def example_playlist_second_run_def
      Playlist_constructor_def)

lemma first_run_channels:
  "playlist.channels example_playlist_first_run =
     [\<lparr>channel.tvg =
        \<lparr>tvg.id = ''BBCOne.uk'', name = [], country = ''uk'', language = ''English'',
         logo = ''http://logo.example/bbc.png'', url = ''http://guide.example/epg.xml''\<rparr>,
      http = \<lparr>referrer = [], user_agent = []\<rparr>,
      url = ''http://stream.example/bbc1.m3u8'',
      logo = ''http://logo.example/bbc.png'',
      name = ''BBC One always'',
      status = Some ''Not always 24/7'',
      resolution = \<lparr>width = None, height = None\<rparr>,
      countries = [\<lparr>country.code = ''uk'', name = Some ''United Kingdom''\<rparr>],
      languages = [\<lparr>language.code = ''eng'', name = ''English''\<rparr>],
      category = []\<rparr>]"
  by (simp add: example_playlist_first_run_def Playlist_constructor_def
      example_item_long_status_def example_item_def example_utils_def example_header_def
      string_simps title_simps normalizer_simps)

lemma second_run_channels:
  "playlist.channels example_playlist_second_run =
     [\<lparr>channel.tvg =
        \<lparr>tvg.id = ''BBCOne.uk'', name = [], country = ''UK'', language = ''English'',
         logo = ''http://logo.example/bbc.png'', url = ''http://guide.example/epg.xml''\<rparr>,
      http = \<lparr>referrer = [], user_agent = []\<rparr>,
      url = ''http://stream.example/bbc1.m3u8'',
      logo = ''http://logo.example/bbc.png'',
      name = ''BBC One always always'',
      status = Some ''Not always 24/7'',
      resolution = \<lparr>width = None, height = None\<rparr>,
      countries = [\<lparr>country.code = ''uk'', name = Some ''United Kingdom''\<rparr>],
      languages = [\<lparr>language.code = ''eng'', name = ''English''\<rparr>],
      category = []\<rparr>]"
  by (simp add: example_playlist_second_run_def Playlist_constructor_def
      example_item_reread_def example_item_def example_utils_def example_header_def
      string_simps title_simps normalizer_simps)

lemma first_run_text:
  "fst (Playlist_toString example_playlist_first_run True) = example_text_first_run"
  by (simp add: Playlist_toString_def first_run_channels run_headers Channel_toString_def
      example_header_def example_text_first_run_def string_simps)

lemma second_run_text:
  "fst (Playlist_toString example_playlist_second_run True) = example_text_second_run"
  by (simp add: Playlist_toString_def second_run_channels run_headers Channel_toString_def
      example_header_def example_text_second_run_def string_simps)

lemma first_run_text_spells_reread_entry:
  "example_text_first_run =
     ''#EXTM3U x-tvg-url='' @ dq @ header_attr example_header ''x-tvg-url'' @ dq @ nl
     @ ''#EXTINF:-1 tvg-id='' @ dq @ tvg.id (item.tvg example_item_reread) @ dq
     @ '' tvg-name='' @ dq @ tvg.name (item.tvg example_item_reread) @ dq
     @ '' tvg-country='' @ dq @ tvg.country (item.tvg example_item_reread) @ dq
     @ '' tvg-language='' @ dq @ tvg.language (item.tvg example_item_reread) @ dq
     @ '' tvg-logo='' @ dq @ tvg.logo (item.tvg example_item_reread) @ dq
     @ '' group-title='' @ dq @ group.title (item.group example_item_reread) @ dq
     @ '','' @ item.name example_item_reread @ nl
     @ item.url example_item_reread @ nl"
  by (simp add: example_text_first_run_def example_item_reread_def example_item_def
      example_header_def header_attr_def)

text \<open>
  Claim C9. Serialization is not idempotent over runs. The entry titled
  \<open>BBC One [Not always 24/7]\<close> is normalized to the name \<open>BBC One always\<close> (the inner
  word of the annotation stays in the name) with the status \<open>Not always 24/7\<close>, and is
  written with the title \<open>BBC One always [Not always 24/7]\<close>. The entry that this text
  spells is normalized to the name \<open>BBC One always always\<close>, so serializing the
  playlist read back from the first output produces a different text: every run
  appends the word once more.
\<close>

theorem serialization_round_trip_grows:
  "map channel.name (playlist.channels example_playlist_first_run) = [''BBC One always'']
   \<and> fst (Playlist_toString example_playlist_first_run True) = example_text_first_run
   \<and> example_text_first_run =
       ''#EXTM3U x-tvg-url='' @ dq @ header_attr example_header ''x-tvg-url'' @ dq @ nl
       @ ''#EXTINF:-1 tvg-id='' @ dq @ tvg.id (item.tvg example_item_reread) @ dq
       @ '' tvg-name='' @ dq @ tvg.name (item.tvg example_item_reread) @ dq
       @ '' tvg-country='' @ dq @ tvg.country (item.tvg example_item_reread) @ dq
       @ '' tvg-language='' @ dq @ tvg.language (item.tvg example_item_reread) @ dq
       @ '' tvg-logo='' @ dq @ tvg.logo (item.tvg example_item_reread) @ dq
       @ '' group-title='' @ dq @ group.title (item.group example_item_reread) @ dq
       @ '','' @ item.name example_item_reread @ nl
       @ item.url example_item_reread @ nl
   \<and> map channel.name (playlist.channels example_playlist_second_run)
       = [''BBC One always always'']
   \<and> fst (Playlist_toString example_playlist_second_run True) = example_text_second_run
   \<and> example_text_second_run \<noteq> example_text_first_run"
proof -
  have "example_text_second_run \<noteq> example_text_first_run"
    by (simp add: example_text_first_run_def example_text_second_run_def)
  then show ?thesis
    using first_run_text_spells_reread_entry
    by (simp add: first_run_channels second_run_channels first_run_text second_run_text)
qed

end
